theory Spec2Isabelle
  imports Complex_Main "HOL-Library.DAList" "HOL-Library.Multiset"
begin

section \<open>Strings and the regular expressions of the tokenizer\<close>

text \<open>
  The classifier is the class \<open>TfIdfNaiveBayes\<close> of the background script. Its strings
  are modelled as \<^typ>\<open>string\<close>: a character of the model is one code unit below 256
  (the Latin-1 part of a JavaScript string), so the range U+4E00 to U+9FFF of the
  tokenizer's character class has no member in this type. Numbers are JavaScript doubles in
  the source; counts are modelled as \<^typ>\<open>nat\<close> and every other number as
  \<^typ>\<open>real\<close>, so the arithmetic below is exact.
\<close>

definition is_word_char :: "char \<Rightarrow> bool" where
  \<comment> \<open>the class \<open>\w\<close>: \<open>[A-Za-z0-9_]\<close>\<close>
  "is_word_char c =
     (let n = (of_char c :: nat)
      in (48 \<le> n \<and> n \<le> 57) \<or> (65 \<le> n \<and> n \<le> 90) \<or> n = 95 \<or> (97 \<le> n \<and> n \<le> 122))"

definition is_space_char :: "char \<Rightarrow> bool" where
  \<comment> \<open>the class \<open>\s\<close> below code unit 256: tab, LF, VT, FF, CR, space, no-break space\<close>
  "is_space_char c =
     (let n = (of_char c :: nat)
      in (9 \<le> n \<and> n \<le> 13) \<or> n = 32 \<or> n = 160)"

definition is_addr_char :: "char \<Rightarrow> bool" where
  \<comment> \<open>the class \<open>[\w.-]\<close>\<close>
  "is_addr_char c = (is_word_char c \<or> c = CHR ''.'' \<or> c = CHR ''-'')"

definition is_kept_char :: "char \<Rightarrow> bool" where
  \<comment> \<open>the complement of \<open>[^\w@.-]\<close> (with the range U+4E00 to U+9FFF, empty here)\<close>
  "is_kept_char c = (is_word_char c \<or> c = CHR ''@'' \<or> c = CHR ''.'' \<or> c = CHR ''-'')"

definition toLowerCase_char :: "char \<Rightarrow> char" where
  "toLowerCase_char c =
     (let n = (of_char c :: nat)
      in if (65 \<le> n \<and> n \<le> 90) \<or> (192 \<le> n \<and> n \<le> 222 \<and> n \<noteq> 215)
         then char_of (n + 32) else c)"

definition toLowerCase :: "string \<Rightarrow> string" where
  "toLowerCase s = map toLowerCase_char s"

text \<open>
  \<open>text.replace(re, repl)\<close> with a global regular expression: the text is scanned from
  the left; where the expression matches, the replacement is emitted and the scan goes on
  behind the match, elsewhere one character is copied. A matcher looks at the rest of the
  text and returns the replacement and the length of the match (at least 1 for the three
  expressions of the tokenizer).
\<close>

function replace_all :: "(string \<Rightarrow> (string \<times> nat) option) \<Rightarrow> string \<Rightarrow> string" where
  "replace_all re [] = []"
| "replace_all re (c # cs) =
     (case re (c # cs) of
        Some (repl, n) \<Rightarrow> repl @ replace_all re (drop (n - 1) cs)
      | None \<Rightarrow> c # replace_all re cs)"
  by pat_completeness auto
termination
  by (relation "measure (\<lambda>(re, s). length s)") auto

definition re_tag :: "string \<Rightarrow> (string \<times> nat) option" where
  \<comment> \<open>\<open>/<[^>]*>/\<close> replaced by one space\<close>
  "re_tag s =
     (case s of
        [] \<Rightarrow> None
      | c # cs \<Rightarrow>
          if c = CHR ''<'' \<and> CHR ''>'' \<in> set cs
          then Some ('' '', length (takeWhile (\<lambda>d. d \<noteq> CHR ''>'') cs) + 2)
          else None)"

definition re_url :: "string \<Rightarrow> (string \<times> nat) option" where
  \<comment> \<open>\<open>/https?:\/\/([^\s\/]+)[^\s]*/\<close> replaced by \<open>' $1 '\<close>\<close>
  "re_url s =
     (let scheme = (if take 8 s = ''https://'' then 8 else if take 7 s = ''http://'' then 7 else 0);
          rest = drop scheme s;
          host = takeWhile (\<lambda>c. \<not> is_space_char c \<and> c \<noteq> CHR ''/'') rest;
          path = takeWhile (\<lambda>c. \<not> is_space_char c) (drop (length host) rest)
      in if scheme = 0 \<or> host = [] then None
         else Some ('' '' @ host @ '' '', scheme + length host + length path))"

definition re_email :: "string \<Rightarrow> (string \<times> nat) option" where
  \<comment> \<open>\<open>/[\w.-]+@([\w.-]+)/\<close> replaced by \<open>' $1 '\<close>\<close>
  "re_email s =
     (let local = takeWhile is_addr_char s;
          rest = drop (length local) s
      in case rest of
           [] \<Rightarrow> None
         | c # cs \<Rightarrow>
             (let dom = takeWhile is_addr_char cs
              in if local = [] \<or> c \<noteq> CHR ''@'' \<or> dom = [] then None
                 else Some ('' '' @ dom @ '' '', length local + 1 + length dom)))"

text \<open>\<open>text.split(/\s+/)\<close>: the pieces between the runs of white space, the empty
  pieces at both ends included.\<close>

function split_ws :: "string \<Rightarrow> string list" where
  "split_ws s =
     (let w = takeWhile (\<lambda>c. \<not> is_space_char c) s;
          r = dropWhile (\<lambda>c. \<not> is_space_char c) s
      in if r = [] then [w] else w # split_ws (dropWhile is_space_char r))"
  by pat_completeness auto

lemma length_dropWhile_space_less:
  assumes "dropWhile (\<lambda>c. \<not> is_space_char c) s \<noteq> []"
  shows "length (dropWhile is_space_char (dropWhile (\<lambda>c. \<not> is_space_char c) s)) < length s"
proof -
  let ?r = "dropWhile (\<lambda>c. \<not> is_space_char c) s"
  from assms obtain c cs where r: "?r = c # cs" by (cases ?r) auto
  have "\<not> (\<lambda>c. \<not> is_space_char c) (hd ?r)"
    using assms by (rule hd_dropWhile)
  with r have "is_space_char c" by simp
  then have "dropWhile is_space_char ?r = dropWhile is_space_char cs"
    using r by simp
  moreover have "length (dropWhile is_space_char cs) \<le> length cs"
    by (rule length_dropWhile_le)
  moreover have "length ?r \<le> length s"
    by (rule length_dropWhile_le)
  ultimately show ?thesis using r by simp
qed

termination split_ws
  by (relation "measure length") (auto intro: length_dropWhile_space_less)

declare split_ws.simps [simp del]

definition tokenize :: "string \<Rightarrow> string list" where
  "tokenize text =
     (if text = [] then []
      else
        let text = toLowerCase text;
            text = replace_all re_tag text;
            text = replace_all re_url text;
            text = replace_all re_email text;
            text = map (\<lambda>c. if is_kept_char c then c else CHR '' '') text
        in filter (\<lambda>w. length w > 1) (split_ws text))"

section \<open>Feature extraction\<close>

record emailData =
  senderName :: "string option"
  senderEmail :: "string option"
  subject :: "string option"
  body :: "string option"

text \<open>\<open>senderEmail.match(/@([\w.-]+)/)\<close>: the first capture group of the leftmost
  match, if there is one.\<close>

fun match_domain :: "string \<Rightarrow> string option" where
  "match_domain [] = None"
| "match_domain (c # cs) =
     (if c = CHR ''@'' \<and> takeWhile is_addr_char cs \<noteq> [] then Some (takeWhile is_addr_char cs)
      else match_domain cs)"

text \<open>\<open>s.split('.')\<close>: never empty, so \<open>pop()\<close> is its last element.\<close>

fun split_char :: "char \<Rightarrow> string \<Rightarrow> string list" where
  "split_char d [] = [[]]"
| "split_char d (c # cs) =
     (if c = d then [] # split_char d cs
      else (case split_char d cs of
              w # ws \<Rightarrow> (c # w) # ws
            | [] \<Rightarrow> [[c]]))"

definition extractFeatures :: "emailData \<Rightarrow> string list" where
  "extractFeatures e =
     (let features = [];
          features =
            (case senderName e of
               Some s \<Rightarrow>
                 if s \<noteq> [] then features @ map (\<lambda>t. ''name_'' @ t) (tokenize s) else features
             | None \<Rightarrow> features);
          features =
            (case senderEmail e of
               Some s \<Rightarrow>
                 if s \<noteq> [] then
                   (case match_domain s of
                      Some d \<Rightarrow>
                        (features @ [''domain_'' @ toLowerCase d])
                          @ [''tld_'' @ last (split_char CHR ''.'' d)]
                    | None \<Rightarrow> features)
                 else features
             | None \<Rightarrow> features);
          features =
            (case subject e of
               Some s \<Rightarrow>
                 if s \<noteq> [] then
                   (features @ map (\<lambda>t. ''subj_'' @ t) (tokenize s)) @ tokenize s
                 else features
             | None \<Rightarrow> features);
          features =
            (case body e of
               Some s \<Rightarrow> if s \<noteq> [] then features @ tokenize s else features
             | None \<Rightarrow> features)
      in features)"

section \<open>The maps of the classifier\<close>

text \<open>
  A JavaScript \<open>Map\<close> keeps its entries in insertion order and holds a key once:
  \<open>set\<close> on a key that is present replaces the value in place, on a new key it appends
  an entry. This is an association list with distinct keys under \<^const>\<open>DAList.update\<close>.
\<close>

type_synonym ('k, 'v) jsmap = "('k, 'v) alist"

definition map_get :: "('k, 'v) jsmap \<Rightarrow> 'k \<Rightarrow> 'v option" where
  "map_get m k = DAList.lookup m k"

definition map_set :: "'k \<Rightarrow> 'v \<Rightarrow> ('k, 'v) jsmap \<Rightarrow> ('k, 'v) jsmap" where
  "map_set k v m = DAList.update k v m"

definition map_has :: "('k, 'v) jsmap \<Rightarrow> 'k \<Rightarrow> bool" where
  "map_has m k = (DAList.lookup m k \<noteq> None)"

definition map_size :: "('k, 'v) jsmap \<Rightarrow> nat" where
  "map_size m = length (DAList.impl_of m)"

definition entries :: "('k, 'v) jsmap \<Rightarrow> ('k \<times> 'v) list" where
  \<comment> \<open>\<open>Array.from(m.entries())\<close>, also the order in which \<open>for (... of m)\<close> visits\<close>
  "entries m = DAList.impl_of m"

definition keys :: "('k, 'v) jsmap \<Rightarrow> 'k list" where
  \<comment> \<open>the keys in insertion order\<close>
  "keys m = map fst (entries m)"

definition new_Map :: "('k \<times> 'v) list \<Rightarrow> ('k, 'v) jsmap" where
  \<comment> \<open>\<open>new Map(iterable)\<close>: the entries are set one after the other\<close>
  "new_Map es = fold (\<lambda>(k, v) m. map_set k v m) es DAList.empty"

definition get_or0 :: "('k, 'v::zero) jsmap \<Rightarrow> 'k \<Rightarrow> 'v" where
  \<comment> \<open>\<open>m.get(k) || 0\<close>\<close>
  "get_or0 m k = (case map_get m k of None \<Rightarrow> 0 | Some v \<Rightarrow> v)"

definition count_word :: "'k \<Rightarrow> ('k, 'v::{zero,one,plus}) jsmap \<Rightarrow> ('k, 'v) jsmap" where
  \<comment> \<open>the statement \<open>counts.set(word, (counts.get(word) || 0) + 1)\<close>\<close>
  "count_word word counts = map_set word (get_or0 counts word + 1) counts"

text \<open>\<open>new Set(features)\<close>, visited in insertion order: the first occurrences.\<close>

definition set_add :: "'a \<Rightarrow> 'a list \<Rightarrow> 'a list" where
  "set_add x s = (if x \<in> set s then s else s @ [x])"

definition new_Set :: "'a list \<Rightarrow> 'a list" where
  "new_Set xs = fold set_add xs []"

section \<open>The model\<close>

datatype label = Spam | Ham

record 'a per_class =
  spam :: 'a
  ham :: 'a

definition cls_get :: "label \<Rightarrow> 'a per_class \<Rightarrow> 'a" where
  "cls_get l pc = (case l of Spam \<Rightarrow> spam pc | Ham \<Rightarrow> ham pc)"

definition cls_map :: "label \<Rightarrow> ('a \<Rightarrow> 'a) \<Rightarrow> 'a per_class \<Rightarrow> 'a per_class" where
  "cls_map l f pc = (case l of Spam \<Rightarrow> pc\<lparr>spam := f (spam pc)\<rparr> | Ham \<Rightarrow> pc\<lparr>ham := f (ham pc)\<rparr>)"

record model =
  vocabulary :: "(string, nat) jsmap"
  documentFrequency :: "(string, nat) jsmap"
  totalDocuments :: nat
  classDocCount :: "nat per_class"
  classWordCounts :: "(string, nat) jsmap per_class"
  classTotalWords :: "nat per_class"
  alpha :: real
  minDf :: nat
  isTrained :: bool

definition new_model :: model where
  \<comment> \<open>the constructor\<close>
  "new_model =
     \<lparr>vocabulary = DAList.empty,
      documentFrequency = DAList.empty,
      totalDocuments = 0,
      classDocCount = \<lparr>spam = 0, ham = 0\<rparr>,
      classWordCounts = \<lparr>spam = DAList.empty, ham = DAList.empty\<rparr>,
      classTotalWords = \<lparr>spam = 0, ham = 0\<rparr>,
      alpha = 1,
      minDf = 2,
      isTrained = False\<rparr>"

section \<open>TF-IDF\<close>

definition docLength :: "string list \<Rightarrow> nat" where
  \<comment> \<open>\<open>words.length || 1\<close>\<close>
  "docLength words = (if length words = 0 then 1 else length words)"

definition termFrequency :: "string list \<Rightarrow> (string, real) jsmap" where
  "termFrequency words =
     (let tf = fold count_word words DAList.empty
      in fold (\<lambda>(word, count) tf. map_set word (count / real (docLength words)) tf)
           (entries tf) tf)"

definition idf :: "model \<Rightarrow> string \<Rightarrow> real" where
  "idf m word =
     (let df = get_or0 (documentFrequency m) word
      in if df = 0 then 0
         else ln ((real (totalDocuments m) + 1) / (real df + 1)) + 1)"

definition tfidfFromFeatures :: "model \<Rightarrow> string list \<Rightarrow> (string, real) jsmap" where
  "tfidfFromFeatures m features =
     (let tf = termFrequency features
      in fold (\<lambda>(word, tfValue) tfidfVector. map_set word (tfValue * idf m word) tfidfVector)
           (entries tf) DAList.empty)"

section \<open>Training\<close>

text \<open>
  A training item carries its label and either a structured record (\<open>emailData\<close>) or,
  in the old format, a text. An item with neither (or with an empty text) is skipped by
  the loop of \<open>train\<close>.
\<close>

record item =
  item_label :: label
  item_emailData :: "emailData option"
  item_text :: "string option"

definition item_features :: "item \<Rightarrow> string list option" where
  \<comment> \<open>the features of an item, or \<open>None\<close> where the loop says \<open>continue\<close>\<close>
  "item_features it =
     (case item_emailData it of
        Some e \<Rightarrow> Some (extractFeatures e)
      | None \<Rightarrow>
          (case item_text it of
             Some t \<Rightarrow> if t \<noteq> [] then Some (tokenize t) else None
           | None \<Rightarrow> None))"

definition train_item :: "item \<Rightarrow> model \<Rightarrow> model" where
  \<comment> \<open>one round of the loop over the training data\<close>
  "train_item it m =
     (case item_features it of
        None \<Rightarrow> m
      | Some features \<Rightarrow>
          (let label = item_label it;
               uniqueWords = new_Set features;
               m = m\<lparr>documentFrequency := fold count_word uniqueWords (documentFrequency m)\<rparr>;
               m = m\<lparr>classDocCount := cls_map label Suc (classDocCount m)\<rparr>
           in fold (\<lambda>word m.
                      m\<lparr>classWordCounts := cls_map label (count_word word) (classWordCounts m),
                        classTotalWords := cls_map label Suc (classTotalWords m)\<rparr>)
                features m))"

definition build_vocabulary :: "nat \<Rightarrow> (string \<times> nat) list \<Rightarrow> (string, nat) jsmap \<Rightarrow> (string, nat) jsmap" where
  \<comment> \<open>the loop that fills the vocabulary, \<open>idx\<close> counting from 0\<close>
  "build_vocabulary mindf dfs vocab =
     fst (fold (\<lambda>(word, df) (vocab, idx).
                  if df \<ge> mindf then (map_set word idx vocab, Suc idx) else (vocab, idx))
            dfs (vocab, 0))"

definition train :: "item list \<Rightarrow> model \<Rightarrow> model" where
  "train trainingData m =
     (let m = m\<lparr>vocabulary := DAList.empty,
                documentFrequency := DAList.empty,
                classWordCounts := \<lparr>spam = DAList.empty, ham = DAList.empty\<rparr>,
                classTotalWords := \<lparr>spam = 0, ham = 0\<rparr>,
                classDocCount := \<lparr>spam = 0, ham = 0\<rparr>,
                totalDocuments := length trainingData\<rparr>
      in if length trainingData = 0 then m
         else
           (let m = fold train_item trainingData m;
                m = m\<lparr>vocabulary :=
                       build_vocabulary (minDf m) (entries (documentFrequency m)) (vocabulary m)\<rparr>
            in m\<lparr>isTrained := True\<rparr>))"

section \<open>Prediction\<close>

datatype input = Text string | Email emailData

record prediction =
  label :: string
  probability :: real
  scores :: "(string \<times> real) list"

definition input_features :: "input \<Rightarrow> string list" where
  "input_features x = (case x of Text s \<Rightarrow> tokenize s | Email e \<Rightarrow> extractFeatures e)"

definition priorProb :: "model \<Rightarrow> label \<Rightarrow> real" where
  "priorProb m l =
     (real (cls_get l (classDocCount m)) + alpha m) / (real (totalDocuments m) + 2 * alpha m)"

definition wordProb :: "model \<Rightarrow> label \<Rightarrow> string \<Rightarrow> real" where
  "wordProb m l word =
     (let vocabSize = (if map_size (vocabulary m) = 0 then 1 else map_size (vocabulary m));
          wordCounts = cls_get l (classWordCounts m);
          totalWords = cls_get l (classTotalWords m);
          wordCount = get_or0 wordCounts word
      in (real wordCount + alpha m) / (real totalWords + alpha m * real vocabSize))"

definition logProb :: "model \<Rightarrow> label \<Rightarrow> (string \<times> real) list \<Rightarrow> real" where
  \<comment> \<open>the inner loop of \<open>predict\<close> for one label, over the entries of the TF-IDF vector\<close>
  "logProb m l vec =
     fold (\<lambda>(word, tfidfValue) logProb.
             if \<not> map_has (vocabulary m) word then logProb
             else logProb + ln (wordProb m l word) * tfidfValue)
       vec (ln (priorProb m l))"

definition get_prop :: "(string \<times> real) list \<Rightarrow> string \<Rightarrow> real" where
  \<comment> \<open>\<open>obj[key]\<close> for a key the object has\<close>
  "get_prop obj key = the (map_of obj key)"

definition predict_features :: "model \<Rightarrow> string list \<Rightarrow> prediction" where
  \<comment> \<open>the body of \<open>predict\<close> behind the extraction of the features\<close>
  "predict_features m features =
     (let tfidfVec = tfidfFromFeatures m features;
          logSpam = logProb m Spam (entries tfidfVec);
          logHam = logProb m Ham (entries tfidfVec);
          maxLogProb = max logSpam logHam;
          expSpam = exp (logSpam - maxLogProb);
          expHam = exp (logHam - maxLogProb);
          sumExp = expSpam + expHam;
          probabilities = [(''spam'', expSpam / sumExp), (''ham'', expHam / sumExp)];
          predictedLabel =
            (if get_prop probabilities ''spam'' > get_prop probabilities ''ham'' then ''spam''
             else ''ham'')
      in \<lparr>label = predictedLabel,
          probability = get_prop probabilities predictedLabel,
          scores = probabilities\<rparr>)"

definition predict :: "model \<Rightarrow> input \<Rightarrow> prediction" where
  "predict m emailData =
     (if \<not> isTrained m then \<lparr>label = ''unknown'', probability = 0, scores = []\<rparr>
      else predict_features m (input_features emailData))"

section \<open>Snapshots\<close>

text \<open>
  The plain object that \<open>serialize\<close> returns and \<open>deserialize\<close> reads. A field that
  an object may lack is an option; \<open>serialize\<close> sets every one of them. Neither
  \<open>alpha\<close> nor \<open>minDf\<close> is a field of the snapshot.
\<close>

record snapshot =
  data_vocabulary :: "(string \<times> nat) list option"
  data_documentFrequency :: "(string \<times> nat) list option"
  data_totalDocuments :: "nat option"
  data_classDocCount :: "nat per_class option"
  data_classWordCounts :: "(string \<times> nat) list option per_class option"
  data_classTotalWords :: "nat per_class option"
  data_isTrained :: "bool option"

definition serialize :: "model \<Rightarrow> snapshot" where
  "serialize m =
     \<lparr>data_vocabulary = Some (entries (vocabulary m)),
      data_documentFrequency = Some (entries (documentFrequency m)),
      data_totalDocuments = Some (totalDocuments m),
      data_classDocCount = Some (classDocCount m),
      data_classWordCounts =
        Some \<lparr>spam = Some (entries (spam (classWordCounts m))),
              ham = Some (entries (ham (classWordCounts m)))\<rparr>,
      data_classTotalWords = Some (classTotalWords m),
      data_isTrained = Some (isTrained m)\<rparr>"

definition or_else :: "'a option \<Rightarrow> 'a \<Rightarrow> 'a" where
  \<comment> \<open>\<open>x || d\<close> for a field that is absent or holds an object or array\<close>
  "or_else x d = (case x of None \<Rightarrow> d | Some v \<Rightarrow> v)"

definition deserialize :: "snapshot option \<Rightarrow> model \<Rightarrow> model" where
  "deserialize data m =
     (case data of
        None \<Rightarrow> m
      | Some d \<Rightarrow>
          m\<lparr>vocabulary := new_Map (or_else (data_vocabulary d) []),
            documentFrequency := new_Map (or_else (data_documentFrequency d) []),
            totalDocuments := or_else (data_totalDocuments d) 0,
            classDocCount := or_else (data_classDocCount d) \<lparr>spam = 0, ham = 0\<rparr>,
            classWordCounts :=
              \<lparr>spam = new_Map (or_else (case data_classWordCounts d of
                                            None \<Rightarrow> None | Some c \<Rightarrow> spam c) []),
               ham = new_Map (or_else (case data_classWordCounts d of
                                           None \<Rightarrow> None | Some c \<Rightarrow> ham c) [])\<rparr>,
            classTotalWords := or_else (data_classTotalWords d) \<lparr>spam = 0, ham = 0\<rparr>,
            isTrained := or_else (data_isTrained d) False\<rparr>)"

section \<open>Notions used to state and prove the properties\<close>

definition features_of :: "item \<Rightarrow> string list" where
  \<comment> \<open>the features a training item contributes; none where the loop skips the item\<close>
  "features_of it = (case item_features it of None \<Rightarrow> [] | Some fs \<Rightarrow> fs)"

definition field_tokens :: "string option \<Rightarrow> string list" where
  \<comment> \<open>the tokens of an optional field of an email record\<close>
  "field_tokens f = (case f of None \<Rightarrow> [] | Some s \<Rightarrow> tokenize s)"

definition sender_features :: "string option \<Rightarrow> string list" where
  \<comment> \<open>what the sender address contributes: its domain and the last label of the domain\<close>
  "sender_features f =
     (case f of
        None \<Rightarrow> []
      | Some s \<Rightarrow>
          (case match_domain s of
             None \<Rightarrow> []
           | Some d \<Rightarrow> [''domain_'' @ toLowerCase d, ''tld_'' @ last (split_char CHR ''.'' d)]))"

definition reset :: "nat \<Rightarrow> model \<Rightarrow> model" where
  \<comment> \<open>the first six assignments of \<open>train\<close>\<close>
  "reset n m =
     m\<lparr>vocabulary := DAList.empty,
       documentFrequency := DAList.empty,
       classWordCounts := \<lparr>spam = DAList.empty, ham = DAList.empty\<rparr>,
       classTotalWords := \<lparr>spam = 0, ham = 0\<rparr>,
       classDocCount := \<lparr>spam = 0, ham = 0\<rparr>,
       totalDocuments := n\<rparr>"

definition finish :: "model \<Rightarrow> model" where
  \<comment> \<open>the end of \<open>train\<close>: the vocabulary is built and the flag set\<close>
  "finish m =
     m\<lparr>vocabulary := build_vocabulary (minDf m) (entries (documentFrequency m)) (vocabulary m),
       isTrained := True\<rparr>"

text \<open>A corpus of two old-format items, and the models trained on it with the default
  smoothing constant and with the constant set to 2.\<close>

definition example_corpus :: "item list" where
  "example_corpus =
     [\<lparr>item_label = Spam, item_emailData = None, item_text = Some ''free prize prize''\<rparr>,
      \<lparr>item_label = Ham, item_emailData = None, item_text = Some ''free meeting''\<rparr>]"

definition example_model :: model where
  "example_model = train example_corpus new_model"

definition overridden_model :: model where
  "overridden_model = train example_corpus (new_model\<lparr>alpha := 2\<rparr>)"

section \<open>Facts about the maps and sets\<close>

lemma update_fresh: "k \<notin> fst ` set al \<Longrightarrow> AList.update k v al = al @ [(k, v)]"
  by (induction al) auto

lemma update_mid:
  "k \<notin> fst ` set xs \<Longrightarrow> AList.update k v (xs @ (k, v0) # ys) = xs @ (k, v) # ys"
  by (induction xs) auto

lemma entries_empty [simp]: "entries DAList.empty = []"
  by (simp add: entries_def empty.rep_eq)

lemma entries_map_set: "entries (map_set k v m) = AList.update k v (entries m)"
  by (simp add: entries_def map_set_def update.rep_eq)

lemma distinct_entries [simp]: "distinct (map fst (entries m))"
  by (simp add: entries_def)

lemma map_get_entries: "map_get m k = map_of (entries m) k"
  by (simp add: map_get_def entries_def lookup.rep_eq)

lemma map_has_entries: "map_has m k = (k \<in> fst ` set (entries m))"
  by (simp add: map_has_def entries_def lookup.rep_eq map_of_eq_None_iff)

lemma map_size_entries: "map_size m = length (entries m)"
  by (simp add: map_size_def entries_def)

lemma jsmap_eqI: "entries a = entries b \<Longrightarrow> a = b"
  by (simp add: entries_def alist_eq_iff)

text \<open>Setting entries with fresh, distinct keys appends them in order.\<close>

lemma entries_fold_set:
  "distinct (map fst es) \<Longrightarrow> fst ` set es \<inter> fst ` set (entries acc) = {} \<Longrightarrow>
   entries (fold (\<lambda>(k, v) m. map_set k (h k v) m) es acc) = entries acc @ map (\<lambda>(k, v). (k, h k v)) es"
proof (induction es arbitrary: acc)
  case Nil
  then show ?case by simp
next
  case (Cons e es)
  obtain k v where e: "e = (k, v)" by (cases e)
  from Cons.prems e have fresh: "k \<notin> fst ` set (entries acc)" by auto
  have step: "entries (map_set k (h k v) acc) = entries acc @ [(k, h k v)]"
    using fresh by (simp add: entries_map_set update_fresh)
  have "fst ` set es \<inter> fst ` set (entries (map_set k (h k v) acc)) = {}"
    using Cons.prems e by (auto simp: step)
  moreover have "distinct (map fst es)" using Cons.prems by simp
  ultimately show ?case using Cons.IH [of "map_set k (h k v) acc"] e step by simp
qed

lemma new_Map_entries: "new_Map (entries m) = m"
proof (rule jsmap_eqI)
  have "entries (fold (\<lambda>(k, v) m. map_set k ((\<lambda>k v. v) k v) m) (entries m) DAList.empty)
          = entries DAList.empty @ map (\<lambda>(k, v). (k, v)) (entries m)"
    by (rule entries_fold_set) simp_all
  then show "entries (new_Map (entries m)) = entries m"
    by (simp add: new_Map_def)
qed

lemma get_or0_map_set: "get_or0 (map_set k v m) w = (if k = w then v else get_or0 m w)"
  by (simp add: get_or0_def map_get_def map_set_def lookup_update)

lemma get_or0_empty [simp]: "get_or0 DAList.empty w = 0"
  by (simp add: get_or0_def map_get_def)

lemma get_or0_entries: "(w, d) \<in> set (entries m) \<Longrightarrow> get_or0 m w = d"
  by (simp add: get_or0_def map_get_entries)

lemma get_or0_count_words:
  "get_or0 (fold count_word ks df) w = get_or0 df w + of_nat (count_list ks w)"
  for df :: "('k, 'v::semiring_1) jsmap"
  by (induction ks arbitrary: df) (simp_all add: count_word_def get_or0_map_set add.assoc)

lemma map_has_map_set: "map_has (map_set k v m) w = (k = w \<or> map_has m w)"
  by (simp add: map_has_def map_set_def lookup_update)

lemma map_has_empty [simp]: "\<not> map_has DAList.empty w"
  by (simp add: map_has_def)

lemma set_fold_set_add: "set (fold set_add xs acc) = set acc \<union> set xs"
  by (induction xs arbitrary: acc) (auto simp: set_add_def)

lemma distinct_fold_set_add: "distinct acc \<Longrightarrow> distinct (fold set_add xs acc)"
  by (induction xs arbitrary: acc) (auto simp: set_add_def)

lemma set_new_Set [simp]: "set (new_Set xs) = set xs"
  by (simp add: new_Set_def set_fold_set_add)

lemma distinct_new_Set [simp]: "distinct (new_Set xs)"
  by (simp add: new_Set_def distinct_fold_set_add)

lemma filter_fold_set_add:
  "filter P (fold set_add xs acc) = fold set_add (filter P xs) (filter P acc)"
  by (induction xs arbitrary: acc) (auto simp: set_add_def)

lemma new_Set_filter: "new_Set (filter P xs) = filter P (new_Set xs)"
  by (simp add: new_Set_def filter_fold_set_add)

lemma count_list_distinct: "distinct xs \<Longrightarrow> count_list xs w = (if w \<in> set xs then 1 else 0)"
  by (induction xs) auto

lemma count_list_removeAll: "w \<noteq> u \<Longrightarrow> count_list (removeAll u ws) w = count_list ws w"
  by (induction ws) auto

lemma keys_count_word: "keys (count_word w m) = set_add w (keys m)"
  by (simp add: keys_def count_word_def entries_map_set update_keys set_add_def)

lemma keys_fold_count_word: "keys (fold count_word ws m) = fold set_add ws (keys m)"
  by (induction ws arbitrary: m) (simp_all add: keys_count_word)

lemma entries_by_keys: "entries m = map (\<lambda>k. (k, get_or0 m k)) (keys m)"
proof -
  have "\<And>e. e \<in> set (entries m) \<Longrightarrow> e = (fst e, get_or0 m (fst e))"
    using get_or0_entries [of _ _ m] by (metis prod.collapse)
  then have "map (\<lambda>e. e) (entries m) = map (\<lambda>e. (fst e, get_or0 m (fst e))) (entries m)"
    by (intro map_cong) auto
  then show ?thesis by (simp add: keys_def comp_def)
qed

lemma entries_count_words:
  "entries (fold count_word ws (DAList.empty :: ('k, 'v::semiring_1) jsmap))
     = map (\<lambda>w. (w, of_nat (count_list ws w))) (new_Set ws)"
proof -
  define m where "m = fold count_word ws (DAList.empty :: ('k, 'v) jsmap)"
  have "keys m = fold set_add ws (keys (DAList.empty :: ('k, 'v) jsmap))"
    unfolding m_def by (rule keys_fold_count_word)
  then have k: "keys m = new_Set ws"
    by (simp add: new_Set_def keys_def)
  have "get_or0 m w = of_nat (count_list ws w)" for w
    unfolding m_def by (simp add: get_or0_count_words)
  then have "entries m = map (\<lambda>w. (w, of_nat (count_list ws w))) (new_Set ws)"
    using entries_by_keys [of m] k by simp
  then show ?thesis by (simp add: m_def)
qed

lemma entries_fold_overwrite:
  "distinct (map fst (pre @ es)) \<Longrightarrow> entries acc = map (\<lambda>(w, c). (w, f c)) pre @ es \<Longrightarrow>
   entries (fold (\<lambda>(w, c) tf. map_set w (f c) tf) es acc) = map (\<lambda>(w, c). (w, f c)) (pre @ es)"
proof (induction es arbitrary: pre acc)
  case Nil
  then show ?case by simp
next
  case (Cons e es)
  obtain w c where e: "e = (w, c)" by (cases e)
  have fresh: "w \<notin> fst ` set (map (\<lambda>(w, c). (w, f c)) pre)"
    using Cons.prems(1) e by (auto simp: image_iff)
  have "entries (map_set w (f c) acc) = map (\<lambda>(w, c). (w, f c)) pre @ (w, f c) # es"
    using Cons.prems(2) e fresh by (simp add: entries_map_set update_mid)
  then have "entries (map_set w (f c) acc) = map (\<lambda>(w, c). (w, f c)) (pre @ [(w, c)]) @ es"
    by simp
  moreover have "distinct (map fst ((pre @ [(w, c)]) @ es))"
    using Cons.prems(1) e by simp
  ultimately have "entries (fold (\<lambda>(w, c) tf. map_set w (f c) tf) es (map_set w (f c) acc))
      = map (\<lambda>(w, c). (w, f c)) ((pre @ [(w, c)]) @ es)"
    by (rule Cons.IH [rotated])
  then show ?case using e by simp
qed

section \<open>Facts about training\<close>

lemma cls_map_comp: "cls_map l g (cls_map l f pc) = cls_map l (\<lambda>x. g (f x)) pc"
  by (cases l) (simp_all add: cls_map_def)

lemma cls_map_id: "cls_map l (\<lambda>x. x) pc = pc"
  by (cases l) (simp_all add: cls_map_def)

lemma fold_words:
  "fold (\<lambda>word m.
           m\<lparr>classWordCounts := cls_map l (count_word word) (classWordCounts m),
             classTotalWords := cls_map l Suc (classTotalWords m)\<rparr>) fs m
   = m\<lparr>classWordCounts := cls_map l (fold count_word fs) (classWordCounts m),
       classTotalWords := cls_map l (\<lambda>n. n + length fs) (classTotalWords m)\<rparr>"
proof (induction fs arbitrary: m)
  case Nil
  show ?case by (simp add: cls_map_id)
next
  case (Cons w fs)
  show ?case by (simp add: Cons.IH cls_map_comp)
qed

lemma train_item_closed:
  "train_item it m =
     (case item_features it of
        None \<Rightarrow> m
      | Some fs \<Rightarrow>
          m\<lparr>documentFrequency := fold count_word (new_Set fs) (documentFrequency m),
            classDocCount := cls_map (item_label it) Suc (classDocCount m),
            classWordCounts := cls_map (item_label it) (fold count_word fs) (classWordCounts m),
            classTotalWords := cls_map (item_label it) (\<lambda>n. n + length fs) (classTotalWords m)\<rparr>)"
  by (simp add: train_item_def Let_def fold_words split: option.splits)

lemma train_item_fields [simp]:
  "alpha (train_item it m) = alpha m"
  "minDf (train_item it m) = minDf m"
  "isTrained (train_item it m) = isTrained m"
  "totalDocuments (train_item it m) = totalDocuments m"
  "vocabulary (train_item it m) = vocabulary m"
  by (simp_all add: train_item_closed split: option.splits)

lemma train_item_isTrained: "train_item it (m\<lparr>isTrained := b\<rparr>) = (train_item it m)\<lparr>isTrained := b\<rparr>"
  by (simp add: train_item_closed split: option.splits)

lemma train_item_alpha: "train_item it (m\<lparr>alpha := a\<rparr>) = (train_item it m)\<lparr>alpha := a\<rparr>"
  by (simp add: train_item_closed split: option.splits)

lemma train_item_df:
  "documentFrequency (train_item it m) = fold count_word (new_Set (features_of it)) (documentFrequency m)"
  by (simp add: train_item_closed features_of_def new_Set_def split: option.splits)

lemma fold_train_item_fields [simp]:
  "alpha (fold train_item c m) = alpha m"
  "minDf (fold train_item c m) = minDf m"
  "isTrained (fold train_item c m) = isTrained m"
  "totalDocuments (fold train_item c m) = totalDocuments m"
  "vocabulary (fold train_item c m) = vocabulary m"
  by (induction c arbitrary: m) simp_all

lemma fold_train_item_isTrained:
  "fold train_item c (m\<lparr>isTrained := b\<rparr>) = (fold train_item c m)\<lparr>isTrained := b\<rparr>"
  by (induction c arbitrary: m) (simp_all add: train_item_isTrained)

lemma fold_train_item_alpha: "fold train_item c (m\<lparr>alpha := a\<rparr>) = (fold train_item c m)\<lparr>alpha := a\<rparr>"
  by (induction c arbitrary: m) (simp_all add: train_item_alpha)

lemma train_fields [simp]:
  "alpha (train c m) = alpha m"
  "minDf (train c m) = minDf m"
  "totalDocuments (train c m) = length c"
  "isTrained (train c m) = (c \<noteq> [] \<or> isTrained m)"
  by (simp_all add: train_def Let_def)

lemma train_alt:
  "train c m = (if c = [] then reset 0 m else finish (fold train_item c (reset (length c) m)))"
  by (simp add: train_def reset_def finish_def Let_def)

lemma reset_finish: "reset n (finish m) = (reset n m)\<lparr>isTrained := True\<rparr>"
  by (simp add: reset_def finish_def)

lemma reset_reset: "reset n (reset k m) = reset n m"
  by (simp add: reset_def)

lemma finish_isTrained: "finish (m\<lparr>isTrained := b\<rparr>) = finish m"
  by (simp add: finish_def)

lemma train_alpha: "train c (m\<lparr>alpha := a\<rparr>) = (train c m)\<lparr>alpha := a\<rparr>"
proof -
  have r: "reset n (m\<lparr>alpha := a\<rparr>) = (reset n m)\<lparr>alpha := a\<rparr>" for n
    by (simp add: reset_def)
  have f: "finish (m'\<lparr>alpha := a\<rparr>) = (finish m')\<lparr>alpha := a\<rparr>" for m'
    by (simp add: finish_def)
  show ?thesis by (simp add: train_alt r f fold_train_item_alpha)
qed

lemma fold_train_item_df:
  "get_or0 (documentFrequency (fold train_item c m)) w =
     get_or0 (documentFrequency m) w + length (filter (\<lambda>it. w \<in> set (features_of it)) c)"
  by (induction c arbitrary: m)
    (simp_all add: train_item_df get_or0_count_words count_list_distinct)

lemma finish_df [simp]: "documentFrequency (finish m) = documentFrequency m"
  by (simp add: finish_def)

lemma reset_df [simp]: "documentFrequency (reset n m) = DAList.empty"
  by (simp add: reset_def)

lemma build_vocabulary_has_aux:
  "map_has (fst (fold (\<lambda>(word, df) (vocab, idx).
                  if df \<ge> k then (map_set word idx vocab, Suc idx) else (vocab, idx))
            dfs (v0, i))) w \<Longrightarrow> map_has v0 w \<or> (\<exists>d. (w, d) \<in> set dfs \<and> k \<le> d)"
proof (induction dfs arbitrary: v0 i)
  case Nil
  then show ?case by simp
next
  case (Cons e dfs)
  obtain word df where e: "e = (word, df)" by (cases e)
  show ?case
  proof (cases "k \<le> df")
    case True
    with Cons.prems e have "map_has (fst (fold (\<lambda>(word, df) (vocab, idx).
                  if df \<ge> k then (map_set word idx vocab, Suc idx) else (vocab, idx))
            dfs (map_set word i v0, Suc i))) w" by simp
    from Cons.IH [OF this] show ?thesis using True e by (auto simp: map_has_map_set)
  next
    case False
    with Cons.prems e have "map_has (fst (fold (\<lambda>(word, df) (vocab, idx).
                  if df \<ge> k then (map_set word idx vocab, Suc idx) else (vocab, idx))
            dfs (v0, i))) w" by simp
    from Cons.IH [OF this] show ?thesis by auto
  qed
qed

lemma vocabulary_gated:
  assumes "map_has (vocabulary (train c m)) w"
  shows "minDf m \<le> get_or0 (documentFrequency (train c m)) w"
proof (cases "c = []")
  case True
  with assms show ?thesis by (simp add: train_alt reset_def)
next
  case False
  let ?X = "fold train_item c (reset (length c) m)"
  have v: "vocabulary ?X = DAList.empty" by (simp add: reset_def)
  from assms False have "map_has (build_vocabulary (minDf m) (entries (documentFrequency ?X)) DAList.empty) w"
    by (simp add: train_alt finish_def v reset_def)
  then obtain d where "(w, d) \<in> set (entries (documentFrequency ?X))" "minDf m \<le> d"
    unfolding build_vocabulary_def using build_vocabulary_has_aux [of "minDf m" _ DAList.empty 0 w] by auto
  then have "minDf m \<le> get_or0 (documentFrequency ?X) w"
    by (simp add: get_or0_entries)
  then show ?thesis using False by (simp add: train_alt)
qed

section \<open>Facts about the weights, the log-scores and the snapshot\<close>

lemma docLength_pos [simp]: "0 < docLength ws"
  by (simp add: docLength_def)

lemma entries_termFrequency:
  "entries (termFrequency ws) =
     map (\<lambda>w. (w, real (count_list ws w) / real (docLength ws))) (new_Set ws)"
proof -
  let ?tf = "fold count_word ws (DAList.empty :: (string, real) jsmap)"
  have "entries (fold (\<lambda>(w, c) tf. map_set w (c / real (docLength ws)) tf) (entries ?tf) ?tf)
          = map (\<lambda>(w, c). (w, c / real (docLength ws))) ([] @ entries ?tf)"
    by (rule entries_fold_overwrite) simp_all
  then show ?thesis
    by (simp add: termFrequency_def entries_count_words comp_def)
qed

lemma entries_tfidfFromFeatures:
  "entries (tfidfFromFeatures m ws) =
     map (\<lambda>w. (w, real (count_list ws w) / real (docLength ws) * idf m w)) (new_Set ws)"
proof -
  have "entries (fold (\<lambda>(k, v) vec. map_set k ((\<lambda>w t. t * idf m w) k v) vec)
                  (entries (termFrequency ws)) DAList.empty)
          = entries DAList.empty @ map (\<lambda>(k, v). (k, (\<lambda>w t. t * idf m w) k v)) (entries (termFrequency ws))"
    by (rule entries_fold_set) simp_all
  then show ?thesis
    by (simp add: tfidfFromFeatures_def entries_termFrequency comp_def)
qed

lemma fold_logProb_sum:
  "fold (\<lambda>(word, tfidfValue) logProb.
             if \<not> map_has (vocabulary m) word then logProb
             else logProb + ln (wordProb m l word) * tfidfValue) vec a
   = a + (\<Sum>(w, t) \<leftarrow> filter (\<lambda>(w, t). map_has (vocabulary m) w) vec. ln (wordProb m l w) * t)"
  by (induction vec arbitrary: a) (auto simp: algebra_simps)

lemma logProb_sum:
  "logProb m l (entries (tfidfFromFeatures m ws)) =
     ln (priorProb m l) +
     (\<Sum>w \<leftarrow> filter (map_has (vocabulary m)) (new_Set ws).
        ln (wordProb m l w) * (real (count_list ws w) / real (docLength ws) * idf m w))"
  by (simp add: logProb_def fold_logProb_sum entries_tfidfFromFeatures filter_map comp_def)

lemma fold_skip:
  "\<not> map_has (vocabulary m) w \<Longrightarrow>
   fold (\<lambda>(word, tfidfValue) logProb.
             if \<not> map_has (vocabulary m) word then logProb
             else logProb + ln (wordProb m l word) * tfidfValue) vec a
   = fold (\<lambda>(word, tfidfValue) logProb.
             if \<not> map_has (vocabulary m) word then logProb
             else logProb + ln (wordProb m l word) * tfidfValue) (filter (\<lambda>(k, v). k \<noteq> w) vec) a"
  by (induction vec arbitrary: a) auto

lemma logProb_skip:
  "\<not> map_has (vocabulary m) w \<Longrightarrow> logProb m l vec = logProb m l (filter (\<lambda>(k, v). k \<noteq> w) vec)"
  unfolding logProb_def by (rule fold_skip)

lemma logProb_unseen:
  assumes "\<not> map_has (vocabulary m) u"
  shows "logProb m l (entries (tfidfFromFeatures m ws)) - ln (priorProb m l) =
     real (docLength (removeAll u ws)) / real (docLength ws) *
       (logProb m l (entries (tfidfFromFeatures m (removeAll u ws))) - ln (priorProb m l))"
proof -
  let ?V = "map_has (vocabulary m)"
  let ?L = "real (docLength ws)" and ?L' = "real (docLength (removeAll u ws))"
  have ks: "filter ?V (new_Set (removeAll u ws)) = filter ?V (new_Set ws)"
  proof -
    have "filter ?V (new_Set (removeAll u ws)) = filter ?V (filter (\<lambda>w. w \<noteq> u) (new_Set ws))"
      by (simp add: removeAll_filter_not_eq new_Set_filter [symmetric] eq_commute)
    also have "\<dots> = filter ?V (new_Set ws)"
      using assms by (auto intro: filter_cong)
    finally show ?thesis .
  qed
  have "(\<Sum>w \<leftarrow> filter ?V (new_Set ws). ln (wordProb m l w) * (real (count_list ws w) / ?L * idf m w))
      = (\<Sum>w \<leftarrow> filter ?V (new_Set ws).
           ?L' / ?L * (ln (wordProb m l w) * (real (count_list (removeAll u ws) w) / ?L' * idf m w)))"
  proof (rule arg_cong [where f = sum_list], rule map_cong [OF refl])
    fix w assume "w \<in> set (filter ?V (new_Set ws))"
    with assms have "w \<noteq> u" by auto
    then have "count_list (removeAll u ws) w = count_list ws w" by (rule count_list_removeAll)
    moreover have "?L' \<noteq> 0" using docLength_pos [of "removeAll u ws"] by simp
    ultimately show "ln (wordProb m l w) * (real (count_list ws w) / ?L * idf m w)
      = ?L' / ?L * (ln (wordProb m l w) * (real (count_list (removeAll u ws) w) / ?L' * idf m w))"
      by simp
  qed
  also have "\<dots> = ?L' / ?L * (\<Sum>w \<leftarrow> filter ?V (new_Set ws).
           ln (wordProb m l w) * (real (count_list (removeAll u ws) w) / ?L' * idf m w))"
    by (rule sum_list_const_mult)
  finally show ?thesis by (simp add: logProb_sum ks)
qed

lemma softmax_eq:
  fixes a b :: real
  shows "exp (a - max a b) / (exp (a - max a b) + exp (b - max a b)) = 1 / (1 + exp (b - a))"
proof -
  have "exp (b - max a b) = exp (a - max a b) * exp (b - a)"
    by (simp add: exp_add [symmetric])
  then have "exp (a - max a b) + exp (b - max a b) = exp (a - max a b) * (1 + exp (b - a))"
    by (simp add: algebra_simps)
  then show ?thesis by simp
qed

lemma predict_features_eq:
  fixes m ws
  defines "a \<equiv> logProb m Spam (entries (tfidfFromFeatures m ws))"
    and "b \<equiv> logProb m Ham (entries (tfidfFromFeatures m ws))"
  defines "s \<equiv> exp (a - max a b) / (exp (a - max a b) + exp (b - max a b))"
    and "h \<equiv> exp (b - max a b) / (exp (a - max a b) + exp (b - max a b))"
  shows "predict_features m ws =
      \<lparr>label = (if s > h then ''spam'' else ''ham''),
       probability = (if s > h then s else h),
       scores = [(''spam'', s), (''ham'', h)]\<rparr>"
  unfolding predict_features_def Let_def a_def b_def s_def h_def get_prop_def by simp

lemma scores_predict_features:
  "scores (predict_features m ws) =
     [(''spam'', 1 / (1 + exp (logProb m Ham (entries (tfidfFromFeatures m ws))
                               - logProb m Spam (entries (tfidfFromFeatures m ws))))),
      (''ham'', 1 / (1 + exp (logProb m Spam (entries (tfidfFromFeatures m ws))
                              - logProb m Ham (entries (tfidfFromFeatures m ws)))))]"
proof -
  let ?a = "logProb m Spam (entries (tfidfFromFeatures m ws))"
  let ?b = "logProb m Ham (entries (tfidfFromFeatures m ws))"
  have "exp (?b - max ?a ?b) / (exp (?a - max ?a ?b) + exp (?b - max ?a ?b)) = 1 / (1 + exp (?a - ?b))"
    using softmax_eq [of ?b ?a] by (simp add: max.commute add.commute)
  then show ?thesis
    by (simp only: predict_features_eq prediction.simps softmax_eq)
qed

lemma scores_differ:
  fixes d d' :: real
  assumes "d \<noteq> d'"
  shows "[(''spam'', 1 / (1 + exp d)), (''ham'', 1 / (1 + exp (- d)))]
          \<noteq> [(''spam'', 1 / (1 + exp d')), (''ham'', 1 / (1 + exp (- d')))]"
proof
  assume "[(''spam'', 1 / (1 + exp d)), (''ham'', 1 / (1 + exp (- d)))]
          = [(''spam'', 1 / (1 + exp d')), (''ham'', 1 / (1 + exp (- d')))]"
  then have "1 / (1 + exp d) = 1 / (1 + exp d')" by simp
  moreover have "1 + exp d > 0" "1 + exp d' > 0" by (simp_all add: add_pos_pos)
  ultimately have "exp d = exp d'" by (simp add: field_simps)
  with assms show False by simp
qed

lemma predict_shape:
  assumes "isTrained m"
  obtains s h where
    "scores (predict m x) = [(''spam'', s), (''ham'', h)]"
    "label (predict m x) = (if s > h then ''spam'' else ''ham'')"
    "probability (predict m x) = (if s > h then s else h)"
    "s + h = 1"
proof -
  define a where "a = logProb m Spam (entries (tfidfFromFeatures m (input_features x)))"
  define b where "b = logProb m Ham (entries (tfidfFromFeatures m (input_features x)))"
  define s where "s = exp (a - max a b) / (exp (a - max a b) + exp (b - max a b))"
  define h where "h = exp (b - max a b) / (exp (a - max a b) + exp (b - max a b))"
  have p: "predict m x =
      \<lparr>label = (if s > h then ''spam'' else ''ham''),
       probability = (if s > h then s else h),
       scores = [(''spam'', s), (''ham'', h)]\<rparr>"
    using assms unfolding s_def h_def a_def b_def by (simp only: predict_def predict_features_eq if_False simp_thms)
  have pos: "exp (a - max a b) + exp (b - max a b) > 0"
    by (simp add: add_pos_pos)
  have sum: "s + h = 1"
    unfolding s_def h_def using pos by (simp add: add_divide_distrib [symmetric])
  show thesis
  proof (rule that [of s h])
    show "scores (predict m x) = [(''spam'', s), (''ham'', h)]" by (simp add: p)
    show "label (predict m x) = (if s > h then ''spam'' else ''ham'')" by (simp add: p)
    show "probability (predict m x) = (if s > h then s else h)" by (simp add: p)
    show "s + h = 1" by (rule sum)
  qed
qed

lemma deserialize_serialize:
  "deserialize (Some (serialize m)) m0 = m\<lparr>alpha := alpha m0, minDf := minDf m0\<rparr>"
  by (simp add: deserialize_def serialize_def or_else_def new_Map_entries)

lemma idf_minDf: "idf (m\<lparr>minDf := k\<rparr>) w = idf m w"
  by (simp add: idf_def Let_def)

lemma tfidfFromFeatures_minDf: "tfidfFromFeatures (m\<lparr>minDf := k\<rparr>) fs = tfidfFromFeatures m fs"
  by (simp add: tfidfFromFeatures_def idf_minDf)

lemma wordProb_minDf: "wordProb (m\<lparr>minDf := k\<rparr>) l w = wordProb m l w"
  by (simp add: wordProb_def)

lemma logProb_minDf: "logProb (m\<lparr>minDf := k\<rparr>) l vec = logProb m l vec"
  by (simp add: logProb_def priorProb_def wordProb_minDf split_def cong: if_cong)

lemma predict_minDf: "predict (m\<lparr>minDf := k\<rparr>) x = predict m x"
  by (simp add: predict_def predict_features_def tfidfFromFeatures_minDf logProb_minDf)

lemma probs_positive:
  assumes "0 < alpha m"
  shows "0 < priorProb m l" and "0 < wordProb m l w"
proof -
  show "0 < priorProb m l"
    using assms by (simp add: priorProb_def add_pos_nonneg add_nonneg_pos)
  have "0 < real (cls_get l (classTotalWords m))
          + alpha m * real (if map_size (vocabulary m) = 0 then 1 else map_size (vocabulary m))"
    using assms by (intro add_nonneg_pos mult_pos_pos) simp_all
  then show "0 < wordProb m l w"
    using assms by (simp add: wordProb_def Let_def add_nonneg_pos)
qed

section \<open>The example models\<close>

lemma overridden_model_eq: "overridden_model = example_model\<lparr>alpha := 2\<rparr>"
  by (simp add: overridden_model_def example_model_def train_alpha)

lemma example_tokens:
  "tokenize ''free'' = [''free'']"
  "tokenize ''free zzzz'' = [''free'', ''zzzz'']"
  "tokenize ''meeting'' = [''meeting'']"
  by code_simp+

lemma example_vocabulary:
  "map_has (vocabulary example_model) ''free''"
  "\<not> map_has (vocabulary example_model) ''zzzz''"
  "\<not> map_has (vocabulary example_model) ''meeting''"
  "\<not> map_has (vocabulary example_model) ''prize''"
  "map_size (vocabulary example_model) = 1"
  by code_simp+

lemma example_df:
  "get_or0 (documentFrequency example_model) ''free'' = 2"
  "get_or0 (documentFrequency example_model) ''prize'' = 1"
  "get_or0 (documentFrequency example_model) ''zzzz'' = 0"
  by code_simp+

lemma example_counts:
  "classDocCount example_model = \<lparr>spam = 1, ham = 1\<rparr>"
  "classTotalWords example_model = \<lparr>spam = 3, ham = 2\<rparr>"
  "get_or0 (spam (classWordCounts example_model)) ''free'' = 1"
  "get_or0 (ham (classWordCounts example_model)) ''free'' = 1"
  by code_simp+

lemma example_scalars:
  "totalDocuments example_model = 2" "isTrained example_model" "alpha example_model = 1"
  "minDf example_model = 2"
  by (simp_all add: example_model_def example_corpus_def new_model_def)

lemma example_probs:
  "priorProb example_model Spam = 1 / 2"
  "priorProb example_model Ham = 1 / 2"
  "wordProb example_model Spam ''free'' = 1 / 2"
  "wordProb example_model Ham ''free'' = 2 / 3"
  "idf example_model ''free'' = 1"
  by (simp_all add: priorProb_def wordProb_def idf_def cls_get_def example_counts example_scalars
        example_vocabulary example_df)

lemma overridden_probs:
  "priorProb overridden_model Spam = 1 / 2"
  "priorProb overridden_model Ham = 1 / 2"
  "wordProb overridden_model Spam ''free'' = 3 / 5"
  "wordProb overridden_model Ham ''free'' = 3 / 4"
  "idf overridden_model ''free'' = 1"
  "map_has (vocabulary overridden_model) ''free''"
  "isTrained overridden_model"
  by (simp_all add: overridden_model_eq priorProb_def wordProb_def idf_def cls_get_def example_counts example_scalars
        example_vocabulary example_df)

lemma new_Set_examples:
  "new_Set [''free''] = [''free'']"
  "new_Set [''free'', ''zzzz''] = [''free'', ''zzzz'']"
  "new_Set [''meeting''] = [''meeting'']"
  by (simp_all add: new_Set_def set_add_def)

lemma example_logProb:
  "logProb example_model Spam (entries (tfidfFromFeatures example_model [''free''])) = ln (1 / 2) + ln (1 / 2)"
  "logProb example_model Ham (entries (tfidfFromFeatures example_model [''free''])) = ln (1 / 2) + ln (2 / 3)"
  "logProb example_model Spam (entries (tfidfFromFeatures example_model [''free'', ''zzzz''])) = ln (1 / 2) + ln (1 / 2) / 2"
  "logProb example_model Ham (entries (tfidfFromFeatures example_model [''free'', ''zzzz''])) = ln (1 / 2) + ln (2 / 3) / 2"
  "logProb example_model Spam (entries (tfidfFromFeatures example_model [''meeting''])) = ln (1 / 2)"
  "logProb example_model Ham (entries (tfidfFromFeatures example_model [''meeting''])) = ln (1 / 2)"
  by (simp_all only: logProb_sum new_Set_examples example_probs example_vocabulary filter.simps if_True if_False
      list.map sum_list.Nil sum_list.Cons count_list.simps docLength_def list.size)
     (simp_all)

lemma overridden_logProb:
  "logProb overridden_model Spam (entries (tfidfFromFeatures overridden_model [''free''])) = ln (1 / 2) + ln (3 / 5)"
  "logProb overridden_model Ham (entries (tfidfFromFeatures overridden_model [''free''])) = ln (1 / 2) + ln (3 / 4)"
  by (simp_all only: logProb_sum new_Set_examples overridden_probs filter.simps if_True if_False
      list.map sum_list.Nil sum_list.Cons count_list.simps docLength_def list.size)
     (simp_all)

section \<open>The properties\<close>

subsection \<open>C1: a snapshot restores the predictions\<close>

text \<open>
  The snapshot holds the accumulators, the counts and the flag, and neither \<open>alpha\<close>
  nor \<open>minDf\<close>: a fresh model that reads it keeps the constructor's \<open>alpha = 1\<close>.
  A model trained with \<open>alpha = 2\<close> therefore predicts differently from its restored
  copy. On the example corpus and the text \<open>free\<close> the model itself gives spam the
  score \<open>4/9\<close> and the restored copy gives \<open>3/7\<close>.
\<close>

text \<open>
  Counterexample to claim C1 as stated (every model, overridden \<open>alpha\<close> included):
  the model trained on the example corpus with \<open>alpha = 2\<close> and the fresh model that
  deserialized its snapshot predict differently on the text \<open>free\<close>.
\<close>

theorem roundtrip_overridden_alpha_counterexample:
  "alpha overridden_model = 2 \<and>
   predict (deserialize (Some (serialize overridden_model)) new_model) (Text ''free'')
     \<noteq> predict overridden_model (Text ''free'')"
proof -
  have "example_model\<lparr>alpha := alpha example_model, minDf := minDf example_model\<rparr> = example_model"
    by simp
  then have "example_model\<lparr>alpha := 1, minDf := 2\<rparr> = example_model"
    by (simp only: example_scalars)
  then have d: "deserialize (Some (serialize overridden_model)) new_model = example_model"
    by (simp add: deserialize_serialize overridden_model_eq new_model_def)
  have 1: "ln (2 / 3 :: real) - ln (1 / 2) = ln ((2 / 3) / (1 / 2))"
    by (subst ln_div) simp_all
  have 2: "ln (3 / 4 :: real) - ln (3 / 5) = ln ((3 / 4) / (3 / 5))"
    by (subst ln_div) simp_all
  have "ln ((2 / 3) / (1 / 2) :: real) \<noteq> ln ((3 / 4) / (3 / 5))" by simp
  then have "ln (2 / 3 :: real) - ln (1 / 2) \<noteq> ln (3 / 4) - ln (3 / 5)"
    by (simp only: 1 2 simp_thms)
  then have "ln (1 / 2 :: real) + ln (2 / 3) - (ln (1 / 2) + ln (1 / 2))
     \<noteq> ln (1 / 2) + ln (3 / 4) - (ln (1 / 2) + ln (3 / 5))" by argo
  from scores_differ [OF this]
  have "scores (predict_features example_model [''free''])
          \<noteq> scores (predict_features overridden_model [''free''])"
    by (simp only: scores_predict_features example_logProb overridden_logProb minus_diff_eq simp_thms)
  then have "predict_features example_model [''free'']
          \<noteq> predict_features overridden_model [''free'']"
    by auto
  moreover have "alpha overridden_model = 2"
    by (simp add: overridden_model_eq)
  ultimately show ?thesis
    by (simp add: d predict_def input_features_def example_tokens example_scalars overridden_probs)
qed

text \<open>
  Claim C1, amended: for every model whose smoothing constant \<open>alpha\<close> has the default
  value 1, whatever its minimum document frequency, and for every input (a structured
  record or a raw string), the fresh model into which the output of \<open>serialize\<close> is
  deserialized returns the same prediction as the model itself.
\<close>

theorem roundtrip_predict:
  "alpha m = 1 \<Longrightarrow> predict (deserialize (Some (serialize m)) new_model) x = predict m x"
proof -
  assume a: "alpha m = 1"
  have "deserialize (Some (serialize m)) new_model = m\<lparr>alpha := 1, minDf := 2\<rparr>"
    by (simp add: deserialize_serialize new_model_def)
  also have "\<dots> = m\<lparr>minDf := 2\<rparr>" using a by simp
  finally show ?thesis by (simp add: predict_minDf)
qed

text \<open>The amended claim C1 at a model trained with \<open>minDf\<close> overridden to 1.\<close>

theorem roundtrip_predict_witness:
  "alpha (train example_corpus (new_model\<lparr>minDf := 1\<rparr>)) = 1 \<and>
   predict (deserialize (Some (serialize (train example_corpus (new_model\<lparr>minDf := 1\<rparr>)))) new_model)
       (Text ''free prize'')
     = predict (train example_corpus (new_model\<lparr>minDf := 1\<rparr>)) (Text ''free prize'')"
  using roundtrip_predict [of "train example_corpus (new_model\<lparr>minDf := 1\<rparr>)" "Text ''free prize''"]
  by (simp add: new_model_def)

subsection \<open>C2: a token never seen in training\<close>

text \<open>
  A token outside the vocabulary is skipped by the loop over the TF-IDF vector, and
  nothing in \<open>predict\<close> can fail on it. But \<open>termFrequency\<close> divides every count by
  the number of all features of the instance, the unseen ones included, so the token
  lowers the weight of every other feature. On \<^const>\<open>example_model\<close> the feature
  \<open>free\<close> alone has weight 1, beside the unseen \<open>zzzz\<close> it has weight \<open>1/2\<close>,
  and the score of spam moves from \<open>3/7\<close> to \<open>1 / (1 + sqrt (4/3))\<close>.
\<close>

text \<open>
  Counterexample to claim C2 as stated: \<open>zzzz\<close> occurs in no training document of the
  example corpus (its document frequency is 0 and it is not in the vocabulary), and the
  posterior probabilities for \<open>free zzzz\<close> differ from those for \<open>free\<close>.
\<close>

theorem unseen_token_counterexample:
  "isTrained example_model \<and>
   get_or0 (documentFrequency example_model) ''zzzz'' = 0 \<and>
   \<not> map_has (vocabulary example_model) ''zzzz'' \<and>
   input_features (Text ''free zzzz'') = [''free'', ''zzzz''] \<and>
   input_features (Text ''free'') = [''free''] \<and>
   scores (predict example_model (Text ''free zzzz'')) \<noteq> scores (predict example_model (Text ''free''))"
proof -
  have "ln (1 / 2 :: real) \<noteq> ln (2 / 3)" by simp
  then have "ln (1 / 2) + ln (2 / 3) / 2 - (ln (1 / 2) + ln (1 / 2) / 2)
     \<noteq> ln (1 / 2 :: real) + ln (2 / 3) - (ln (1 / 2) + ln (1 / 2))" by argo
  from scores_differ [OF this]
  have "scores (predict_features example_model [''free'', ''zzzz''])
          \<noteq> scores (predict_features example_model [''free''])"
    by (simp only: scores_predict_features example_logProb minus_diff_eq simp_thms)
  then show ?thesis
    by (simp add: predict_def input_features_def example_tokens example_scalars example_vocabulary example_df)
qed

text \<open>
  Claim C2, amended: for every model and every feature sequence, a token that is not in
  the vocabulary does not make the prediction fail (the result is labelled spam or ham)
  and adds no term of its own to the log-score of either class; it still counts in the
  length of the instance, so for each class the log-score less the logarithm of the prior
  is the value for the sequence without the token, multiplied by the length without the
  token over the length with it (an empty sequence counting as length 1).
\<close>

theorem unseen_token_dilutes:
  "\<not> map_has (vocabulary m) u \<Longrightarrow>
   (label (predict_features m ws) = ''spam'' \<or> label (predict_features m ws) = ''ham'') \<and>
   logProb m l (entries (tfidfFromFeatures m ws)) - ln (priorProb m l) =
     real (docLength (removeAll u ws)) / real (docLength ws) *
       (logProb m l (entries (tfidfFromFeatures m (removeAll u ws))) - ln (priorProb m l))"
proof -
  assume v: "\<not> map_has (vocabulary m) u"
  have "label (predict_features m ws) = ''spam'' \<or> label (predict_features m ws) = ''ham''"
    by (simp add: predict_features_eq)
  with logProb_unseen [OF v, of l ws] show ?thesis by blast
qed

text \<open>The amended claim C2 at \<^const>\<open>example_model\<close>, the unseen token \<open>zzzz\<close>
  and the features \<open>free\<close>, \<open>zzzz\<close>.\<close>

theorem unseen_token_dilutes_witness:
  "\<not> map_has (vocabulary example_model) ''zzzz'' \<and>
   (label (predict_features example_model [''free'', ''zzzz'']) = ''spam''
     \<or> label (predict_features example_model [''free'', ''zzzz'']) = ''ham'') \<and>
   logProb example_model Spam (entries (tfidfFromFeatures example_model [''free'', ''zzzz'']))
       - ln (priorProb example_model Spam) =
     real (docLength (removeAll ''zzzz'' [''free'', ''zzzz''])) / real (docLength [''free'', ''zzzz'']) *
       (logProb example_model Spam
          (entries (tfidfFromFeatures example_model (removeAll ''zzzz'' [''free'', ''zzzz''])))
        - ln (priorProb example_model Spam))"
proof -
  have v: "\<not> map_has (vocabulary example_model) ''zzzz''" by (rule example_vocabulary)
  from unseen_token_dilutes [OF v, of "[''free'', ''zzzz'']" Spam] v
  show ?thesis by blast
qed

subsection \<open>C3: training on an empty corpus\<close>

text \<open>
  \<open>train\<close> resets the accumulators, stores the length of the corpus and, for an empty
  corpus, returns at once: the assignment \<open>isTrained = true\<close> at its end is not reached.
\<close>

text \<open>
  Counterexample to claim C3 as stated: after \<open>train\<close> on the empty corpus a fresh model
  is not flagged as trained.
\<close>

theorem train_empty_flag_counterexample: "isTrained (train [] new_model) = False"
  by (simp add: train_def new_model_def)

text \<open>
  Claim C3, amended: calling \<open>train\<close> on an empty corpus leaves every accumulator
  (vocabulary, document-frequency table, per-class word counts, per-class totals, per-class
  document counts, total document count) empty or zero and leaves the trained flag as it
  was, so a fresh model stays untrained.
\<close>

theorem train_empty:
  "train [] m =
     m\<lparr>vocabulary := DAList.empty,
       documentFrequency := DAList.empty,
       classWordCounts := \<lparr>spam = DAList.empty, ham = DAList.empty\<rparr>,
       classTotalWords := \<lparr>spam = 0, ham = 0\<rparr>,
       classDocCount := \<lparr>spam = 0, ham = 0\<rparr>,
       totalDocuments := 0\<rparr>
   \<and> isTrained (train [] m) = isTrained m"
  by (simp add: train_def)

subsection \<open>C4: the scores are normalized\<close>

text \<open>
  Claim C4: for every prediction on a trained model the two returned class scores sum
  to 1, in the exact arithmetic of the model, and the returned probability is the score of
  the returned label. (For a positive \<open>alpha\<close> every logarithm behind the scores is
  taken of a positive number, by \<open>probs_positive\<close>.)
\<close>

theorem scores_normalized:
  "isTrained m \<Longrightarrow>
   get_prop (scores (predict m x)) ''spam'' + get_prop (scores (predict m x)) ''ham'' = 1 \<and>
   probability (predict m x) = get_prop (scores (predict m x)) (label (predict m x))"
proof -
  assume t: "isTrained m"
  from t obtain s h where sh: "scores (predict m x) = [(''spam'', s), (''ham'', h)]"
    "label (predict m x) = (if s > h then ''spam'' else ''ham'')"
    "probability (predict m x) = (if s > h then s else h)"
    "s + h = 1"
    by (rule predict_shape)
  then show ?thesis by (simp add: get_prop_def)
qed

text \<open>Claim C4 at \<^const>\<open>example_model\<close> and the text \<open>free\<close>.\<close>

theorem scores_normalized_witness:
  "isTrained example_model \<and>
   get_prop (scores (predict example_model (Text ''free''))) ''spam''
     + get_prop (scores (predict example_model (Text ''free''))) ''ham'' = 1 \<and>
   probability (predict example_model (Text ''free''))
     = get_prop (scores (predict example_model (Text ''free''))) (label (predict example_model (Text ''free'')))"
proof -
  have t: "isTrained example_model" by (simp add: example_scalars)
  from scores_normalized [OF t, of "Text ''free''"] t show ?thesis by blast
qed

subsection \<open>C5: prediction on an untrained model\<close>

text \<open>
  Claim C5: for every input (a raw string or a record, with any of its fields missing),
  \<open>predict\<close> on a model whose trained flag is false returns the label \<open>unknown\<close>,
  the probability 0 and an empty score map. The model function is total: no error is
  raised.
\<close>

theorem untrained_sentinel:
  "\<not> isTrained m \<Longrightarrow> predict m x = \<lparr>label = ''unknown'', probability = 0, scores = []\<rparr>"
  by (simp add: predict_def)

text \<open>Claim C5 at the fresh model and a record with every field missing.\<close>

theorem untrained_sentinel_witness:
  "\<not> isTrained new_model \<and>
   predict new_model (Email \<lparr>senderName = None, senderEmail = None, subject = None, body = None\<rparr>)
     = \<lparr>label = ''unknown'', probability = 0, scores = []\<rparr>"
proof -
  have u: "\<not> isTrained new_model" by (simp add: new_model_def)
  from untrained_sentinel [OF u] u show ?thesis by blast
qed

subsection \<open>C6: the vocabulary gates the log-scores\<close>

text \<open>
  Claim C6: after training on any corpus, a feature whose document frequency is below the
  configured minimum of the model is not in the vocabulary, and in every later
  prediction the log-score of either class is the one computed with the entry of that
  feature left out of the TF-IDF vector.
\<close>

theorem vocabulary_gating:
  "get_or0 (documentFrequency (train c m)) w < minDf (train c m) \<Longrightarrow>
   \<not> map_has (vocabulary (train c m)) w \<and>
   logProb (train c m) l (entries (tfidfFromFeatures (train c m) features))
     = logProb (train c m) l
         (filter (\<lambda>(k, v). k \<noteq> w) (entries (tfidfFromFeatures (train c m) features)))"
proof -
  assume "get_or0 (documentFrequency (train c m)) w < minDf (train c m)"
  then have "\<not> map_has (vocabulary (train c m)) w"
    using vocabulary_gated [of c m w] by auto
  then show ?thesis by (simp add: logProb_skip [symmetric])
qed

text \<open>Claim C6 at the example corpus, the default minimum 2 and the feature
  \<open>prize\<close>, which one document contains.\<close>

theorem vocabulary_gating_witness:
  "get_or0 (documentFrequency (train example_corpus new_model)) ''prize''
     < minDf (train example_corpus new_model) \<and>
   \<not> map_has (vocabulary (train example_corpus new_model)) ''prize'' \<and>
   logProb (train example_corpus new_model) Spam
       (entries (tfidfFromFeatures (train example_corpus new_model) [''free'', ''prize'']))
     = logProb (train example_corpus new_model) Spam
         (filter (\<lambda>(k, v). k \<noteq> ''prize'')
            (entries (tfidfFromFeatures (train example_corpus new_model) [''free'', ''prize''])))"
proof -
  have d: "get_or0 (documentFrequency (train example_corpus new_model)) ''prize''
             < minDf (train example_corpus new_model)"
    using example_df(2) by (simp add: example_model_def new_model_def)
  from vocabulary_gating [OF d, of Spam "[''free'', ''prize'']"] d show ?thesis by blast
qed

subsection \<open>C7: the features of an email record\<close>

text \<open>
  Claim C7: the features of a record are, in this order, the tokens of the sender name
  with the prefix \<open>name_\<close>, the features of the sender address, every token of the
  subject with the prefix \<open>subj_\<close>, every token of the subject once more without a
  prefix, and every token of the body once, without a prefix. A missing field has no
  tokens and contributes nothing.
\<close>

theorem extractFeatures_fields:
  "field_tokens None = [] \<and> sender_features None = [] \<and>
   extractFeatures e =
     map (\<lambda>t. ''name_'' @ t) (field_tokens (senderName e))
     @ sender_features (senderEmail e)
     @ map (\<lambda>t. ''subj_'' @ t) (field_tokens (subject e)) @ field_tokens (subject e)
     @ field_tokens (body e)"
  by (simp add: extractFeatures_def field_tokens_def sender_features_def tokenize_def
        split: option.splits)

subsection \<open>C8: the document frequencies\<close>

text \<open>
  Claim C8: after training on any corpus, the document frequency recorded for a feature
  (0 where the table has no entry) is the number of training documents whose features
  contain it, however often it occurs in one document, and it is at most the total
  document count.
\<close>

theorem document_frequency_counts:
  "get_or0 (documentFrequency (train c m)) w = length (filter (\<lambda>it. w \<in> set (features_of it)) c)
   \<and> get_or0 (documentFrequency (train c m)) w \<le> totalDocuments (train c m)"
proof -
  have eq: "get_or0 (documentFrequency (train c m)) w
              = length (filter (\<lambda>it. w \<in> set (features_of it)) c)"
    by (simp add: train_alt fold_train_item_df)
  show ?thesis by (simp add: eq)
qed

subsection \<open>C9: training twice\<close>

text \<open>
  Claim C9: for every corpus and every model, a fresh one in particular, training on the
  corpus twice in succession gives the same serialized state as training on it once.
\<close>

theorem train_twice_same_snapshot:
  "serialize (train c (train c m)) = serialize (train c m)"
proof (cases "c = []")
  case True
  then show ?thesis by (simp add: train_alt reset_reset)
next
  case False
  let ?X = "fold train_item c (reset (length c) m)"
  have r: "reset (length c) ?X = reset (length c) m"
    by (simp add: reset_def)
  have "train c (train c m) = finish (fold train_item c (reset (length c) (finish ?X)))"
    using False by (simp add: train_alt)
  also have "reset (length c) (finish ?X) = (reset (length c) m)\<lparr>isTrained := True\<rparr>"
    by (simp only: reset_finish r)
  also have "finish (fold train_item c ((reset (length c) m)\<lparr>isTrained := True\<rparr>)) = finish ?X"
    by (simp only: fold_train_item_isTrained finish_isTrained)
  finally have "train c (train c m) = train c m"
    using False by (simp add: train_alt)
  then show ?thesis by simp
qed

subsection \<open>C10: ties\<close>

text \<open>
  Claim C10: when the two normalized class scores of a prediction on a trained model are
  equal, the label is \<open>ham\<close>.
\<close>

theorem tie_is_ham:
  "isTrained m \<Longrightarrow>
   get_prop (scores (predict m x)) ''spam'' = get_prop (scores (predict m x)) ''ham'' \<Longrightarrow>
   label (predict m x) = ''ham''"
proof -
  assume t: "isTrained m"
    and eq: "get_prop (scores (predict m x)) ''spam'' = get_prop (scores (predict m x)) ''ham''"
  from t obtain s h where sh: "scores (predict m x) = [(''spam'', s), (''ham'', h)]"
    "label (predict m x) = (if s > h then ''spam'' else ''ham'')"
    by (rule predict_shape)
  from eq sh(1) have "s = h" by (simp add: get_prop_def)
  with sh(2) show ?thesis by simp
qed

text \<open>Claim C10 at \<^const>\<open>example_model\<close> and the text \<open>meeting\<close>: no feature of
  the instance is in the vocabulary and the two classes have the same prior.\<close>

theorem tie_is_ham_witness:
  "isTrained example_model \<and>
   get_prop (scores (predict example_model (Text ''meeting''))) ''spam''
     = get_prop (scores (predict example_model (Text ''meeting''))) ''ham'' \<and>
   label (predict example_model (Text ''meeting'')) = ''ham''"
proof -
  have t: "isTrained example_model" by (simp add: example_scalars)
  have e: "get_prop (scores (predict example_model (Text ''meeting''))) ''spam''
     = get_prop (scores (predict example_model (Text ''meeting''))) ''ham''"
    by (simp add: predict_def t input_features_def example_tokens scores_predict_features
          example_logProb get_prop_def)
  from tie_is_ham [OF t e] t e show ?thesis by blast
qed

end
